theory Spec2Isabelle
  imports Complex_Main "HOL-Library.AList" "HOL-Library.Product_Lexorder"
begin

section \<open>The queue table of \<open>sqlqueue.py\<close>\<close>

text \<open>
  \<open>SQLQueue\<close> keeps its work items in one table of a PostgreSQL database. Every method
  formats a statement and sends it to the store; the model is the table as a value and
  each method as a function on it. What the model fixes:

  \<^item> a row has the ten meta columns that the class constants \<open>SQ_...\<close> name, each with the
    type \<open>create_table\<close> gives it, and the caller's payload columns, a map from column
    names to cells (\<open>None\<close> is SQL's NULL). \<open>sq_priority\<close> and \<open>sq_status\<close> are never NULL:
    \<open>put\<close> writes both on every row it inserts and every later statement writes a string
    into \<open>sq_status\<close>; the cells of a priority column that a dataframe carries are
    integers. The ranges of the column types (\<open>int\<close>, \<open>varchar(20)\<close>) are not modelled,
    and a cell is the value that the store gives back for it;
  \<^item> \<open>create_table\<close> adds nine of the ten meta columns: it adds no \<open>sq_claim_hostname\<close>
    column, which \<open>claim\<close> writes. A table has that column when its creator described it,
    and then it is listed with the payload columns of the table; on a table without it
    the \<open>UPDATE\<close> of \<open>claim\<close> is refused by the store;
  \<^item> \<open>now()\<close> and \<open>socket.gethostname()\<close> are arguments of the method that reads them; a
    timestamp is a number of microseconds;
  \<^item> one method runs at a time (the claims are about a static backlog); the \<open>join_text\<close>
    arguments keep their default, the empty string;
  \<^item> a condition given as SQL text (\<open>conditional_claim\<close>) is the list of the operands of
    its top-level \<open>OR\<close>s, each a predicate on rows: \<open>claim\<close> pastes the text without
    brackets behind \<open>WHERE sq_status = 'AVAILABLE' and\<close>, and \<open>and\<close> binds tighter than
    \<open>or\<close>;
  \<^item> a string that a method formats between quotes into its statement (a host name,
    \<open>finish_status\<close>, the members of \<open>status_list\<close>) is taken to hold no quote and no
    percent sign. With a quote the statement is no longer the one the method means, and
    the driver reads a percent sign as the start of a parameter. \<open>finish\<close> and
    \<open>set_destroyed\<close> stop with \<open>QuoteInStatement\<close> at a quote, which stands for a call
    outside the model and for no exception of the code; every theorem on other strings
    than constants says what it takes of them (\<open>plain\<close>).
\<close>

type_synonym timestamp = int

record 'v row =
  sq_id :: int
  sq_priority :: int
  sq_status :: string
  sq_put_time :: "timestamp option"
  sq_put_hostname :: "string option"
  sq_claim_time :: "timestamp option"
  sq_claim_hostname :: "string option"
  sq_get_time :: "timestamp option"
  sq_get_hostname :: "string option"
  sq_finish_time :: "timestamp option"
  payload :: "string \<rightharpoonup> 'v"

text \<open>
  A pandas dataframe: the names of its columns and its rows. A row of a frame has the
  shape of a row of the table; the fields of a column that the frame does not have are
  not part of the frame and are never read.
\<close>

record 'v dataframe =
  df_columns :: "string list"
  df_rows :: "'v row list"

text \<open>
  The table: the columns that it has beyond those that \<open>create_table\<close> adds (the payload
  columns, and \<open>sq_claim_hostname\<close> when the table has it), its rows in insertion order,
  and the next value of the sequence behind \<open>sq_id serial primary key\<close>.
\<close>

record 'v table =
  payload_columns :: "string list"
  t_rows :: "'v row list"
  next_id :: int

datatype error = IntegrityError | TypeError | QuoteInStatement | ProgrammingError

subsection \<open>Class constants\<close>

definition SQ_PRIORITY :: string where "SQ_PRIORITY = ''sq_priority''"
definition SQ_STATUS :: string where "SQ_STATUS = ''sq_status''"
definition SQ_ID :: string where "SQ_ID = ''sq_id''"
definition SQ_PUT_TIME :: string where "SQ_PUT_TIME = ''sq_put_time''"
definition SQ_PUT_HOSTNAME :: string where "SQ_PUT_HOSTNAME = ''sq_put_hostname''"
definition SQ_CLAIM_TIME :: string where "SQ_CLAIM_TIME = ''sq_claim_time''"
definition SQ_CLAIM_HOSTNAME :: string where "SQ_CLAIM_HOSTNAME = ''sq_claim_hostname''"
definition SQ_GET_TIME :: string where "SQ_GET_TIME = ''sq_get_time''"
definition SQ_GET_HOSTNAME :: string where "SQ_GET_HOSTNAME = ''sq_get_hostname''"
definition SQ_FINISH_TIME :: string where "SQ_FINISH_TIME = ''sq_finish_time''"

definition MAX_PRIORITY :: int where "MAX_PRIORITY = 10"
definition MIN_PRIORITY :: int where "MIN_PRIORITY = 1"

definition STATUS_AVAILABLE :: string where "STATUS_AVAILABLE = ''AVAILABLE''"
definition STATUS_CLAIMED :: string where "STATUS_CLAIMED = ''CLAIMED''"
definition STATUS_PROGRESS :: string where "STATUS_PROGRESS = ''IN_PROGRESS''"
definition STATUS_COMPLETED :: string where "STATUS_COMPLETED = ''COMPLETED''"
definition STATUS_NOEXIST :: string where "STATUS_NOEXIST = ''DOESNOTEXIST''"
definition STATUS_EXCEPTION :: string where "STATUS_EXCEPTION = ''EXCEPTION''"
definition STATUS_DESTROYED :: string where "STATUS_DESTROYED = ''DESTROYED''"
definition STATUS_RECOVERABLE :: string where "STATUS_RECOVERABLE = ''RECOVERABLE''"

definition meta_columns :: "string list" where
  "meta_columns = [SQ_PRIORITY, SQ_STATUS, SQ_ID, SQ_PUT_TIME, SQ_PUT_HOSTNAME,
     SQ_CLAIM_TIME, SQ_CLAIM_HOSTNAME, SQ_GET_TIME, SQ_GET_HOSTNAME, SQ_FINISH_TIME]"

text \<open>The meta columns that \<open>create_table\<close> adds to a table: all but \<open>sq_claim_hostname\<close>.\<close>

definition created_columns :: "string list" where
  "created_columns = [SQ_STATUS, SQ_PRIORITY, SQ_PUT_TIME, SQ_CLAIM_TIME, SQ_GET_TIME,
     SQ_FINISH_TIME, SQ_PUT_HOSTNAME, SQ_GET_HOSTNAME, SQ_ID]"

text \<open>\<open>BaseSQLBridge.get_columns\<close>: the column names of the table.\<close>

definition get_columns :: "'v table \<Rightarrow> string list" where
  "get_columns tbl = created_columns @ payload_columns tbl"

subsection \<open>\<open>put\<close> and \<open>SQLConn.append_to_table\<close>\<close>

text \<open>
  \<open>df.loc[:, name] = value\<close> writes the value into the column on every row and adds the
  column, at the end, to a frame that does not have it.
\<close>

definition add_column :: "string \<Rightarrow> string list \<Rightarrow> string list" where
  "add_column c cs = (if c \<in> set cs then cs else cs @ [c])"

definition set_sq_priority :: "int \<Rightarrow> 'v dataframe \<Rightarrow> 'v dataframe" where
  "set_sq_priority v df =
     \<lparr>df_columns = add_column SQ_PRIORITY (df_columns df),
      df_rows = map (\<lambda>r. r\<lparr>sq_priority := v\<rparr>) (df_rows df)\<rparr>"

definition set_sq_status :: "string \<Rightarrow> 'v dataframe \<Rightarrow> 'v dataframe" where
  "set_sq_status v df =
     \<lparr>df_columns = add_column SQ_STATUS (df_columns df),
      df_rows = map (\<lambda>r. r\<lparr>sq_status := v\<rparr>) (df_rows df)\<rparr>"

definition set_sq_put_hostname :: "string \<Rightarrow> 'v dataframe \<Rightarrow> 'v dataframe" where
  "set_sq_put_hostname v df =
     \<lparr>df_columns = add_column SQ_PUT_HOSTNAME (df_columns df),
      df_rows = map (\<lambda>r. r\<lparr>sq_put_hostname := Some v\<rparr>) (df_rows df)\<rparr>"

text \<open>
  \<open>BaseSQLBridge.get_df_interesection\<close>: the columns of the frame that the table does not
  have are dropped.
\<close>

definition get_df_interesection :: "'v dataframe \<Rightarrow> string list \<Rightarrow> 'v dataframe" where
  "get_df_interesection df sql_columns =
     df\<lparr>df_columns := filter (\<lambda>c. c \<in> set sql_columns) (df_columns df)\<rparr>"

text \<open>
  The row that the store makes of a frame's row: a column of the frame gives its cell, a
  column that the frame lacks gets the column's default, which is the next value of the
  sequence for \<open>sq_id\<close>, \<open>now()\<close> for \<open>sq_put_time\<close> and NULL for the others.
  \<open>sq_priority\<close> and \<open>sq_status\<close> are columns of every frame that \<open>put\<close> appends.
\<close>

definition insert_row :: "string list \<Rightarrow> timestamp \<Rightarrow> int \<Rightarrow> 'v row \<Rightarrow> 'v row" where
  "insert_row cs now serial r =
     \<lparr>sq_id = (if SQ_ID \<in> set cs then sq_id r else serial),
      sq_priority = sq_priority r,
      sq_status = sq_status r,
      sq_put_time = (if SQ_PUT_TIME \<in> set cs then sq_put_time r else Some now),
      sq_put_hostname = (if SQ_PUT_HOSTNAME \<in> set cs then sq_put_hostname r else None),
      sq_claim_time = (if SQ_CLAIM_TIME \<in> set cs then sq_claim_time r else None),
      sq_claim_hostname = (if SQ_CLAIM_HOSTNAME \<in> set cs then sq_claim_hostname r else None),
      sq_get_time = (if SQ_GET_TIME \<in> set cs then sq_get_time r else None),
      sq_get_hostname = (if SQ_GET_HOSTNAME \<in> set cs then sq_get_hostname r else None),
      sq_finish_time = (if SQ_FINISH_TIME \<in> set cs then sq_finish_time r else None),
      payload = (\<lambda>c. if c \<in> set cs \<and> c \<notin> set meta_columns then payload r c else None)\<rparr>"

text \<open>
  The rows are inserted in order. \<open>sq_id\<close> is the primary key: the store refuses a row
  whose id a row of the table already has, and then the whole \<open>put\<close> raises. (After an
  error \<open>append_to_table\<close> tries \<open>to_sql\<close> once more. The second try is taken to fail as
  the first did; where the sequence has advanced past the colliding id in between, it
  can succeed, which is not modelled: the theorems on a \<open>put\<close> that succeeds are about
  one that succeeds at the first try.)
\<close>

fun insert_rows :: "string list \<Rightarrow> timestamp \<Rightarrow> 'v table \<Rightarrow> 'v row list \<Rightarrow> error + 'v table" where
  "insert_rows cs now tbl [] = Inr tbl"
| "insert_rows cs now tbl (r # rs) =
     (let new = insert_row cs now (next_id tbl) r;
          serial = (if SQ_ID \<in> set cs then next_id tbl else next_id tbl + 1)
      in if sq_id new \<in> set (map sq_id (t_rows tbl)) then Inl IntegrityError
         else insert_rows cs now (tbl\<lparr>t_rows := t_rows tbl @ [new], next_id := serial\<rparr>) rs)"

text \<open>
  \<open>append_to_table\<close> as \<open>put\<close> calls it: the table exists, so its column list is not
  empty and the frame is cut down to it. The bulk copy that is tried for more than 100
  rows inserts the same cells.
\<close>

definition append_to_table :: "'v table \<Rightarrow> 'v dataframe \<Rightarrow> timestamp \<Rightarrow> error + 'v table" where
  "append_to_table tbl data_to_append now =
     (let sql_columns_list = get_columns tbl;
          temp_df = get_df_interesection data_to_append sql_columns_list
      in insert_rows (df_columns temp_df) now tbl (df_rows temp_df))"

definition put :: "'v table \<Rightarrow> 'v dataframe \<Rightarrow> bool \<Rightarrow> int \<Rightarrow> string \<Rightarrow> timestamp \<Rightarrow> error + 'v table" where
  "put tbl df priority_included priority host now =
     (let priority_included = (if SQ_PRIORITY \<notin> set (df_columns df) then False else priority_included);
          priority = (if priority > MAX_PRIORITY then MAX_PRIORITY else priority);
          priority = (if priority < MIN_PRIORITY then MIN_PRIORITY else priority);
          df = (if \<not> priority_included then set_sq_priority priority df else df);
          df = set_sq_status STATUS_AVAILABLE df;
          df = set_sq_put_hostname host df
      in append_to_table tbl df now)"

subsection \<open>\<open>claim\<close>\<close>

text \<open>\<open>ORDER BY sq_priority DESC, sq_id ASC\<close>: the rows sorted by this key, smallest first.\<close>

definition claim_order :: "'v row \<Rightarrow> int \<times> int" where
  "claim_order r = (- sq_priority r, sq_id r)"

definition set_claimed :: "string \<Rightarrow> timestamp \<Rightarrow> 'v row \<Rightarrow> 'v row" where
  "set_claimed host now x =
     x\<lparr>sq_status := STATUS_CLAIMED, sq_claim_time := Some now, sq_claim_hostname := Some host\<rparr>"

text \<open>
  The condition. \<open>claim\<close> builds \<open>WHERE sq_status = 'AVAILABLE' and <text>\<close> from a
  condition text that is not empty, and \<open>WHERE sq_status = 'AVAILABLE'\<close> from \<open>None\<close> or the
  empty text. The text is pasted as it is, so for a text \<open>c or d or ...\<close> the store reads
  \<open>(sq_status = 'AVAILABLE' and c) or d or ...\<close>. A condition is the list of the operands
  of the top-level \<open>OR\<close>s of the text: empty for no condition, of one predicate for a
  text without a top-level \<open>OR\<close>.
\<close>

type_synonym 'v condition = "('v row \<Rightarrow> bool) list"

definition claim_where :: "'v condition \<Rightarrow> 'v row \<Rightarrow> bool" where
  "claim_where conditional_claim r =
     (case conditional_claim of
        [] \<Rightarrow> sq_status r = STATUS_AVAILABLE
      | c # ds \<Rightarrow> (sq_status r = STATUS_AVAILABLE \<and> c r) \<or> list_ex (\<lambda>d. d r) ds)"

text \<open>
  The \<open>SELECT ... LIMIT 1\<close> gives at most one row. With no row, \<open>claim\<close> returns -1. With
  a row, the \<open>UPDATE ... WHERE sq_id = <its id>\<close> sets \<open>sq_status\<close>, \<open>sq_claim_time\<close> and
  \<open>sq_claim_hostname\<close>; the store refuses it (the connection raises) when the table has no
  \<open>sq_claim_hostname\<close> column. The result is the table and the value returned.
\<close>

definition has_claim_hostname :: "'v table \<Rightarrow> bool" where
  "has_claim_hostname tbl = (SQ_CLAIM_HOSTNAME \<in> set (get_columns tbl))"

definition claim :: "'v table \<Rightarrow> 'v condition \<Rightarrow> string \<Rightarrow> timestamp \<Rightarrow> error + ('v table \<times> int)" where
  "claim tbl conditional_claim host now =
     (let row_id_df = take 1 (sort_key claim_order
             (filter (claim_where conditional_claim) (t_rows tbl)))
      in case row_id_df of
           [] \<Rightarrow> Inr (tbl, - 1)
         | r # _ \<Rightarrow>
             if has_claim_hostname tbl
             then Inr (tbl\<lparr>t_rows := map (\<lambda>x. if sq_id x = sq_id r then set_claimed host now x else x)
                                        (t_rows tbl)\<rparr>,
                       sq_id r)
             else Inl ProgrammingError)"

subsection \<open>\<open>get\<close>, \<open>finish\<close>, \<open>get_status\<close>\<close>

definition set_in_progress :: "string \<Rightarrow> timestamp \<Rightarrow> 'v row \<Rightarrow> 'v row" where
  "set_in_progress host now x =
     x\<lparr>sq_get_time := Some now, sq_status := STATUS_PROGRESS, sq_get_hostname := Some host\<rparr>"

text \<open>The result is the table after the \<open>UPDATE\<close> and the frame that the \<open>SELECT *\<close> gives.\<close>

definition get :: "'v table \<Rightarrow> int \<Rightarrow> string \<Rightarrow> timestamp \<Rightarrow> 'v table \<times> 'v row list" where
  "get tbl row_id host now =
     (let tbl' = tbl\<lparr>t_rows := map (\<lambda>x. if sq_id x = row_id then set_in_progress host now x else x)
                                    (t_rows tbl)\<rparr>
      in (tbl', filter (\<lambda>x. sq_id x = row_id) (t_rows tbl')))"

definition quote_free :: "string \<Rightarrow> bool" where
  "quote_free s = (CHR 0x27 \<notin> set s)"

definition set_finished :: "string \<Rightarrow> timestamp \<Rightarrow> 'v row \<Rightarrow> 'v row" where
  "set_finished finish_status now x = x\<lparr>sq_finish_time := Some now, sq_status := finish_status\<rparr>"

definition finish :: "'v table \<Rightarrow> int \<Rightarrow> string \<Rightarrow> timestamp \<Rightarrow> error + 'v table" where
  "finish tbl row_id finish_status now =
     (if \<not> quote_free finish_status then Inl QuoteInStatement
      else Inr (tbl\<lparr>t_rows := map (\<lambda>x. if sq_id x = row_id then set_finished finish_status now x else x)
                                   (t_rows tbl)\<rparr>))"

definition get_status :: "'v table \<Rightarrow> int \<Rightarrow> string" where
  "get_status tbl row_id =
     (let status_df = filter (\<lambda>x. sq_id x = row_id) (t_rows tbl)
      in case status_df of r # _ \<Rightarrow> sq_status r | [] \<Rightarrow> STATUS_NOEXIST)"

subsection \<open>\<open>cleanup_long_running_rows\<close>\<close>

text \<open>
  \<open>EXTRACT(EPOCH FROM now() - t)/3600\<close>: the seconds between the two timestamps, in hours,
  as an exact quotient.
\<close>

definition hours_since :: "timestamp \<Rightarrow> timestamp \<Rightarrow> rat" where
  "hours_since now t = of_int (now - t) / 1000000 / 3600"

text \<open>
  The statement carries each timeout as \<open>'{:f}'.format(float(timeout))\<close>: the number with
  six digits behind the point, rounded to the nearest, a tie to the even digit. A timeout
  is the rational number that \<open>float(timeout)\<close> is.
\<close>

definition round_half_even :: "rat \<Rightarrow> int" where
  "round_half_even x =
     (let f = \<lfloor>x\<rfloor>; d = x - of_int f
      in if d < 1 / 2 then f else if 1 / 2 < d then f + 1 else if even f then f else f + 1)"

definition format_f :: "rat \<Rightarrow> rat" where
  "format_f x = of_int (round_half_even (x * 1000000)) / 1000000"

definition timedout :: "rat \<Rightarrow> rat \<Rightarrow> timestamp \<Rightarrow> 'v row \<Rightarrow> bool" where
  "timedout in_progress_timeout_h claimed_timeout_h now r =
     ((sq_status r = STATUS_PROGRESS
        \<and> (case sq_get_time r of None \<Rightarrow> False
            | Some t \<Rightarrow> hours_since now t > in_progress_timeout_h))
      \<or> (sq_status r = STATUS_CLAIMED
        \<and> (case sq_claim_time r of None \<Rightarrow> False
            | Some t \<Rightarrow> hours_since now t > claimed_timeout_h)))"

definition set_status_destroyed :: "'v row \<Rightarrow> 'v row" where
  "set_status_destroyed x = x\<lparr>sq_status := STATUS_DESTROYED\<rparr>"

text \<open>The result is the table and the frame returned, which holds the rows as selected.\<close>

definition cleanup_long_running_rows ::
    "'v table \<Rightarrow> rat \<Rightarrow> rat \<Rightarrow> timestamp \<Rightarrow> 'v table \<times> 'v row list" where
  "cleanup_long_running_rows tbl in_progress_timeout_h claimed_timeout_h now =
     (let in_progress_df = filter (timedout (format_f in_progress_timeout_h)
                                            (format_f claimed_timeout_h) now) (t_rows tbl)
      in if length in_progress_df > 0
         then (let id_list = remdups (map sq_id in_progress_df)
               in (tbl\<lparr>t_rows := map (\<lambda>x. if sq_id x \<in> set id_list then set_status_destroyed x else x)
                                      (t_rows tbl)\<rparr>,
                   in_progress_df))
         else (tbl, in_progress_df))"

subsection \<open>\<open>set_destroyed\<close>\<close>

text \<open>Python's \<open>sep.join(xs)\<close>.\<close>

fun join :: "string \<Rightarrow> string list \<Rightarrow> string" where
  "join sep [] = []"
| "join sep [x] = x"
| "join sep (x # y # ys) = x @ sep @ join sep (y # ys)"

text \<open>
  Both statements test \<open>sq_status in ('<joined>')\<close>, where \<open><joined>\<close> is
  \<open>"', '".join(status_list)\<close>. The store reads the text between the brackets as a list of
  string literals. With the opening quote read, a literal runs up to the next quote; the
  comma, the space and the opening quote of the next literal follow it, or the text ends
  (the statuses hold no quote). The join of the empty list is the empty string: the text
  is then \<open>('')\<close>, the list of one literal, the empty string.
\<close>

function literals :: "string \<Rightarrow> string \<Rightarrow> string list" where
  "literals acc [] = [acc]"
| "literals acc (c # cs) =
     (if c = CHR 0x27 then acc # literals [] (drop 3 cs) else literals (acc @ [c]) cs)"
  by pat_completeness auto
termination
  by (relation "measure (\<lambda>(acc, s). length s)") auto

definition in_literals :: "string list \<Rightarrow> string list" where
  "in_literals status_list =
     literals [] (join [CHR 0x27, CHR '','', CHR '' '', CHR 0x27] status_list)"

definition set_destroyed :: "'v table \<Rightarrow> string list \<Rightarrow> error + ('v table \<times> int list)" where
  "set_destroyed tbl status_list =
     (if \<not> list_all quote_free status_list then Inl QuoteInStatement
      else (let in_progress_df = filter (\<lambda>r. sq_status r \<in> set (in_literals status_list)) (t_rows tbl);
                tbl' = tbl\<lparr>t_rows := map (\<lambda>x. if sq_status x \<in> set (in_literals status_list)
                                                then set_status_destroyed x else x)
                                          (t_rows tbl)\<rparr>
            in Inr (tbl', if in_progress_df \<noteq> [] then map sq_id in_progress_df else [])))"

subsection \<open>\<open>create_table\<close>\<close>




section \<open>Auxiliary definitions\<close>

text \<open>The priority that \<open>put\<close> computes from its argument in its two clamping lines.\<close>

definition put_priority :: "int \<Rightarrow> int" where
  "put_priority priority =
     (if priority > MAX_PRIORITY then MAX_PRIORITY
      else if priority < MIN_PRIORITY then MIN_PRIORITY else priority)"

subsection \<open>Concrete tables and frames\<close>

definition blank_row :: "string row" where
  "blank_row = \<lparr>sq_id = 0, sq_priority = 0, sq_status = [], sq_put_time = None,
     sq_put_hostname = None, sq_claim_time = None, sq_claim_hostname = None, sq_get_time = None,
     sq_get_hostname = None, sq_finish_time = None, payload = Map.empty\<rparr>"

definition empty_queue :: "string table" where
  "empty_queue = \<lparr>payload_columns = [''job''], t_rows = [], next_id = 1\<rparr>"

text \<open>An empty queue whose table has the \<open>sq_claim_hostname\<close> column.\<close>

definition work_queue :: "string table" where
  "work_queue = \<lparr>payload_columns = [''job'', ''sq_claim_hostname''], t_rows = [], next_id = 1\<rparr>"


text \<open>A frame with a priority column of its own, holding 99 and -5.\<close>

definition df_unclamped :: "string dataframe" where
  "df_unclamped = \<lparr>df_columns = [''job'', ''sq_priority''],
     df_rows = [blank_row\<lparr>sq_priority := 99, payload := [''job'' \<mapsto> ''a'']\<rparr>,
                blank_row\<lparr>sq_priority := - 5, payload := [''job'' \<mapsto> ''b'']\<rparr>]\<rparr>"

text \<open>A frame that brings a status and a host name of its own.\<close>

definition df_forged :: "string dataframe" where
  "df_forged = \<lparr>df_columns = [''job'', ''sq_status'', ''sq_put_hostname''],
     df_rows = [blank_row\<lparr>sq_status := ''COMPLETED'', sq_put_hostname := Some ''elsewhere'',
                           payload := [''job'' \<mapsto> ''a'']\<rparr>]\<rparr>"







text \<open>
  A frame of three rows with the priorities 5, 9 and 1, and the table as \<open>put\<close> leaves
  it when the frame is put into the empty queue by \<open>host-a\<close> at time 0.
\<close>

definition df_three :: "string dataframe" where
  "df_three = \<lparr>df_columns = [''job'', ''sq_priority''],
     df_rows = [blank_row\<lparr>sq_priority := 5\<rparr>, blank_row\<lparr>sq_priority := 9\<rparr>,
                blank_row\<lparr>sq_priority := 1\<rparr>]\<rparr>"

definition queue_three :: "string table" where
  "queue_three = \<lparr>payload_columns = [''job''],
     t_rows = [blank_row\<lparr>sq_id := 1, sq_priority := 5, sq_status := ''AVAILABLE'',
                          sq_put_time := Some 0, sq_put_hostname := Some ''host-a''\<rparr>,
               blank_row\<lparr>sq_id := 2, sq_priority := 9, sq_status := ''AVAILABLE'',
                          sq_put_time := Some 0, sq_put_hostname := Some ''host-a''\<rparr>,
               blank_row\<lparr>sq_id := 3, sq_priority := 1, sq_status := ''AVAILABLE'',
                          sq_put_time := Some 0, sq_put_hostname := Some ''host-a''\<rparr>],
     next_id = 4\<rparr>"

text \<open>The table after \<open>finish(2, '')\<close>: row 2 has the empty string as its status.\<close>

definition queue_blank_status :: "string table" where
  "queue_blank_status = projr (finish queue_three 2 [] 60)"





text \<open>
  Two jobs, \<open>a\<close> with priority 5 and \<open>b\<close> with priority 9, put into the empty queue; the
  table after a \<open>claim()\<close> by \<open>host-x\<close> at time 5; and the condition
  \<open>job = 'a' or job = 'b'\<close>, whose top-level \<open>OR\<close> has the two operands.
\<close>

definition df_jobs :: "string dataframe" where
  "df_jobs = \<lparr>df_columns = [''job'', ''sq_priority''],
     df_rows = [blank_row\<lparr>sq_priority := 5, payload := [''job'' \<mapsto> ''a'']\<rparr>,
                blank_row\<lparr>sq_priority := 9, payload := [''job'' \<mapsto> ''b'']\<rparr>]\<rparr>"

definition queue_jobs :: "string table" where
  "queue_jobs = projr (put work_queue df_jobs True 1 ''host-a'' 0)"

definition queue_jobs_claimed :: "string table" where
  "queue_jobs_claimed = fst (projr (claim queue_jobs [] ''host-x'' 5))"

definition job_is :: "string \<Rightarrow> string row \<Rightarrow> bool" where
  "job_is v r = (payload r ''job'' = Some v)"

definition a_or_b :: "string condition" where
  "a_or_b = [job_is ''a'', job_is ''b'']"

text \<open>
  Four leases: rows 1 and 4 claimed at time 0 and a little under two hours later, row 2
  fetched at time 0, row 3 still available.
\<close>

definition queue_leases :: "string table" where
  "queue_leases = \<lparr>payload_columns = [''job'', ''sq_claim_hostname''],
     t_rows = [blank_row\<lparr>sq_id := 1, sq_priority := 5, sq_status := ''CLAIMED'', sq_claim_time := Some 0\<rparr>,
               blank_row\<lparr>sq_id := 2, sq_priority := 9, sq_status := ''IN_PROGRESS'',
                          sq_claim_time := Some 0, sq_get_time := Some 0\<rparr>,
               blank_row\<lparr>sq_id := 3, sq_priority := 1, sq_status := ''AVAILABLE''\<rparr>,
               blank_row\<lparr>sq_id := 4, sq_priority := 1, sq_status := ''CLAIMED'',
                          sq_claim_time := Some 7000000000\<rparr>],
     next_id = 5\<rparr>"

subsection \<open>The claims' own notions\<close>

text \<open>
  A string that may stand between quotes in a statement: it holds no quote and no percent
  sign.
\<close>

definition plain :: "string \<Rightarrow> bool" where
  "plain s = (CHR 0x27 \<notin> set s \<and> CHR ''%'' \<notin> set s)"

text \<open>
  The optional predicate of the claims, as a condition: none, or a condition text without
  a top-level \<open>OR\<close>, which is its own single operand.
\<close>

definition one_operand :: "('v row \<Rightarrow> bool) option \<Rightarrow> 'v condition" where
  "one_operand conditional_claim = (case conditional_claim of None \<Rightarrow> [] | Some c \<Rightarrow> [c])"

text \<open>A row that \<open>claim\<close> may take: AVAILABLE, and satisfying the condition when one is given.\<close>

definition eligible :: "('v row \<Rightarrow> bool) option \<Rightarrow> 'v row \<Rightarrow> bool" where
  "eligible conditional_claim r =
     (sq_status r = STATUS_AVAILABLE \<and> (case conditional_claim of None \<Rightarrow> True | Some c \<Rightarrow> c r))"

text \<open>The order of service: the higher priority first, and the lower id first among equals.\<close>

definition ranks_before :: "'v row \<Rightarrow> 'v row \<Rightarrow> bool" where
  "ranks_before a b =
     (sq_priority a > sq_priority b \<or> (sq_priority a = sq_priority b \<and> sq_id a < sq_id b))"

text \<open>
  A stamp is older than a number of hours: it is set, and more than that many hours (of
  3600000000 microseconds) lie between it and now.
\<close>

definition older_than :: "timestamp \<Rightarrow> timestamp option \<Rightarrow> rat \<Rightarrow> bool" where
  "older_than now stamp hours =
     (case stamp of None \<Rightarrow> False | Some t \<Rightarrow> of_int (now - t) > hours * 3600000000)"

text \<open>
  The rows that the recovery scanner is to reclaim: CLAIMED with a claim time older than
  \<open>t_cl\<close> hours, or IN_PROGRESS with a get time older than \<open>t_ip\<close> hours.
\<close>

definition lease_expired :: "rat \<Rightarrow> rat \<Rightarrow> timestamp \<Rightarrow> 'v row \<Rightarrow> bool" where
  "lease_expired t_ip t_cl now r =
     ((sq_status r = STATUS_CLAIMED \<and> older_than now (sq_claim_time r) t_cl)
      \<or> (sq_status r = STATUS_PROGRESS \<and> older_than now (sq_get_time r) t_ip))"

subsection \<open>Sequences of operations\<close>

text \<open>
  The operations of the queue as values, each run by the method of its name with the
  calling host and the store's clock; a run stops at the first error.
\<close>

datatype 'v operation =
    Put "'v dataframe" bool int
  | Claim "'v condition"
  | Get int
  | Finish int string
  | Cleanup rat rat
  | SetDestroyed "string list"

fun step :: "'v table \<Rightarrow> 'v operation \<Rightarrow> string \<Rightarrow> timestamp \<Rightarrow> error + 'v table" where
  "step tbl (Put df priority_included priority) host now = put tbl df priority_included priority host now"
| "step tbl (Claim conditional_claim) host now =
     (case claim tbl conditional_claim host now of Inl e \<Rightarrow> Inl e | Inr (tbl', row_id) \<Rightarrow> Inr tbl')"
| "step tbl (Get row_id) host now = Inr (fst (get tbl row_id host now))"
| "step tbl (Finish row_id finish_status) host now = finish tbl row_id finish_status now"
| "step tbl (Cleanup in_progress_timeout_h claimed_timeout_h) host now =
     Inr (fst (cleanup_long_running_rows tbl in_progress_timeout_h claimed_timeout_h now))"
| "step tbl (SetDestroyed status_list) host now =
     (case set_destroyed tbl status_list of Inl e \<Rightarrow> Inl e | Inr (tbl', ids) \<Rightarrow> Inr tbl')"















section \<open>Lemmas on \<open>put\<close>\<close>

lemmas sq_names = SQ_PRIORITY_def SQ_STATUS_def SQ_ID_def SQ_PUT_TIME_def SQ_PUT_HOSTNAME_def
  SQ_CLAIM_TIME_def SQ_CLAIM_HOSTNAME_def SQ_GET_TIME_def SQ_GET_HOSTNAME_def SQ_FINISH_TIME_def

lemmas put_eval = put_def append_to_table_def get_df_interesection_def set_sq_priority_def
  set_sq_status_def set_sq_put_hostname_def add_column_def get_columns_def created_columns_def
  meta_columns_def insert_row_def sq_names MAX_PRIORITY_def MIN_PRIORITY_def Let_def

lemma insert_rows_appends:
  "insert_rows cs now tbl rs = Inr tbl' \<Longrightarrow>
     \<exists>new. t_rows tbl' = t_rows tbl @ new \<and> list_all2 (\<lambda>r n. \<exists>s. n = insert_row cs now s r) rs new"
proof (induction rs arbitrary: tbl)
  case Nil
  then show ?case by simp
next
  case (Cons r rs)
  let ?n = "insert_row cs now (next_id tbl) r"
  let ?t = "tbl\<lparr>t_rows := t_rows tbl @ [?n],
                 next_id := (if SQ_ID \<in> set cs then next_id tbl else next_id tbl + 1)\<rparr>"
  from Cons.prems have step: "insert_rows cs now ?t rs = Inr tbl'"
    by (simp add: Let_def split: if_splits)
  from Cons.IH [OF step] obtain new where
    new: "t_rows tbl' = t_rows ?t @ new" "list_all2 (\<lambda>r n. \<exists>s. n = insert_row cs now s r) rs new"
    by blast
  have "t_rows tbl' = t_rows tbl @ (?n # new)" using new(1) by simp
  moreover have "list_all2 (\<lambda>r n. \<exists>s. n = insert_row cs now s r) (r # rs) (?n # new)"
    using new(2) by auto
  ultimately show ?case by blast
qed

lemma insert_rows_payload_columns:
  "insert_rows cs now tbl rs = Inr tbl' \<Longrightarrow> payload_columns tbl' = payload_columns tbl"
  by (induction rs arbitrary: tbl) (auto simp: Let_def split: if_splits)

lemma insert_rows_distinct:
  "insert_rows cs now tbl rs = Inr tbl' \<Longrightarrow> distinct (map sq_id (t_rows tbl)) \<Longrightarrow>
     distinct (map sq_id (t_rows tbl'))"
  by (induction rs arbitrary: tbl) (auto simp: Let_def split: if_splits)


text \<open>The frame that \<open>put\<close> hands to the insert, and the columns of it that the table has.\<close>

lemma put_unfold:
  "put tbl df priority_included priority host now =
     (let df1 = (if SQ_PRIORITY \<in> set (df_columns df) \<and> priority_included then df
                 else set_sq_priority (put_priority priority) df)
      in insert_rows
           (filter (\<lambda>c. c \<in> set (get_columns tbl))
              (add_column SQ_PUT_HOSTNAME (add_column SQ_STATUS (df_columns df1))))
           now tbl
           (map (\<lambda>r. r\<lparr>sq_status := STATUS_AVAILABLE, sq_put_hostname := Some host\<rparr>) (df_rows df1)))"
  by (simp add: put_def append_to_table_def get_df_interesection_def put_priority_def
      set_sq_status_def set_sq_put_hostname_def Let_def MAX_PRIORITY_def MIN_PRIORITY_def o_def)

lemma put_hostname_column:
  "SQ_PUT_HOSTNAME \<in> set (filter (\<lambda>c. c \<in> set (get_columns tbl)) (add_column SQ_PUT_HOSTNAME cs))"
  by (simp add: add_column_def get_columns_def created_columns_def)


lemma list_all2_in_right:
  assumes "list_all2 P xs ys" and "y \<in> set ys"
  shows "\<exists>x \<in> set xs. P x y"
proof -
  from assms(2) obtain i where i: "i < length ys" "y = ys ! i"
    by (auto simp: in_set_conv_nth)
  have "i < length xs" using i(1) assms(1) by (simp add: list_all2_lengthD)
  moreover have "P (xs ! i) (ys ! i)"
    using assms(1) i(1) by (simp add: list_all2_conv_all_nth)
  ultimately show ?thesis using i(2) nth_mem by blast
qed

text \<open>
  The path that clamps: when the priority comes from the argument, every inserted row has
  it in the range.
\<close>

lemma put_priority_in_range: "MIN_PRIORITY \<le> put_priority p \<and> put_priority p \<le> MAX_PRIORITY"
  by (simp add: put_priority_def MIN_PRIORITY_def MAX_PRIORITY_def)

lemma put_argument_priority_clamped:
  assumes "put tbl df priority_included priority host now = Inr tbl'"
    and "\<not> (SQ_PRIORITY \<in> set (df_columns df) \<and> priority_included)"
  shows "\<exists>new. t_rows tbl' = t_rows tbl @ new
           \<and> (\<forall>r \<in> set new. MIN_PRIORITY \<le> sq_priority r \<and> sq_priority r \<le> MAX_PRIORITY)"
proof -
  define cs where "cs = filter (\<lambda>c. c \<in> set (get_columns tbl))
     (add_column SQ_PUT_HOSTNAME (add_column SQ_STATUS
        (df_columns (set_sq_priority (put_priority priority) df))))"
  define rs where "rs = map (\<lambda>r. r\<lparr>sq_status := STATUS_AVAILABLE, sq_put_hostname := Some host\<rparr>)
     (df_rows (set_sq_priority (put_priority priority) df))"
  have ins: "insert_rows cs now tbl rs = Inr tbl'"
    using assms by (simp add: put_unfold Let_def cs_def rs_def)
  from insert_rows_appends [OF ins] obtain new where
    new: "t_rows tbl' = t_rows tbl @ new" "list_all2 (\<lambda>r n. \<exists>s. n = insert_row cs now s r) rs new"
    by blast
  have "\<forall>n \<in> set new. MIN_PRIORITY \<le> sq_priority n \<and> sq_priority n \<le> MAX_PRIORITY"
  proof
    fix n assume "n \<in> set new"
    with list_all2_in_right [OF new(2)] obtain r s where "r \<in> set rs" "n = insert_row cs now s r"
      by blast
    then show "MIN_PRIORITY \<le> sq_priority n \<and> sq_priority n \<le> MAX_PRIORITY"
      using put_priority_in_range [of priority]
      by (auto simp: rs_def insert_row_def set_sq_priority_def)
  qed
  then show ?thesis using new(1) by blast
qed


text \<open>The table \<open>queue_three\<close> is what the \<open>put\<close> of the three rows gives.\<close>

lemma put_three: "put empty_queue df_three True 1 ''host-a'' 0 = Inr queue_three"
  by (simp add: put_eval empty_queue_def df_three_def queue_three_def blank_row_def
      STATUS_AVAILABLE_def fun_eq_iff)

section \<open>Lemmas on the rows of a table\<close>

lemma filter_distinct_key:
  "distinct (map f xs) \<Longrightarrow> x \<in> set xs \<Longrightarrow> filter (\<lambda>y. f y = f x) xs = [x]"
proof (induction xs)
  case Nil
  then show ?case by simp
next
  case (Cons a xs)
  show ?case
  proof (cases "a = x")
    case True
    have "f x \<notin> f ` set xs"
      using Cons.prems(1) True by simp
    then have "\<forall>y \<in> set xs. f y \<noteq> f x"
      by (metis imageI)
    then have "filter (\<lambda>y. f y = f x) xs = []"
      by (simp add: filter_empty_conv)
    then show ?thesis using True by simp
  next
    case False
    then have "x \<in> set xs" using Cons.prems(2) by simp
    moreover have "f a \<noteq> f x" using Cons.prems(1) calculation by auto
    ultimately show ?thesis using Cons by simp
  qed
qed

lemma filter_id_update:
  assumes "\<And>x. sq_id (g x) = sq_id x"
  shows "filter (\<lambda>x. sq_id x = i) (map (\<lambda>x. if sq_id x = i then g x else x) xs)
           = map g (filter (\<lambda>x. sq_id x = i) xs)"
  using assms by (induction xs) auto

lemma same_id_same_row:
  "distinct (map sq_id xs) \<Longrightarrow> x \<in> set xs \<Longrightarrow> y \<in> set xs \<Longrightarrow> sq_id x = sq_id y \<Longrightarrow> x = y"
  by (auto simp: distinct_map dest: inj_onD)

lemma id_selected_iff:
  assumes "distinct (map sq_id xs)" and "x \<in> set xs"
  shows "sq_id x \<in> set (remdups (map sq_id (filter P xs))) \<longleftrightarrow> P x"
proof
  assume "sq_id x \<in> set (remdups (map sq_id (filter P xs)))"
  then obtain y where y: "y \<in> set xs" "P y" "sq_id y = sq_id x" by auto
  have "inj_on sq_id (set xs)" using assms(1) by (simp add: distinct_map)
  then have "y = x" using y(1,3) assms(2) by (auto dest: inj_onD)
  then show "P x" using y(2) by simp
next
  assume "P x"
  then show "sq_id x \<in> set (remdups (map sq_id (filter P xs)))" using assms(2) by auto
qed

lemma ids_kept:
  assumes "\<And>x. sq_id (g x) = sq_id x"
  shows "map sq_id (map (\<lambda>x. if P x then g x else x) xs) = map sq_id xs"
  by (induction xs) (simp_all add: assms)

section \<open>Lemmas on \<open>claim\<close>\<close>

lemma sort_key_hd_min:
  assumes "sort_key f xs = y # ys"
  shows "y \<in> set xs \<and> (\<forall>x \<in> set xs. f y \<le> f x)"
proof -
  have "set (y # ys) = set xs" using assms set_sort [of f xs] by simp
  moreover have "sorted (map f (y # ys))" using assms sorted_sort_key [of f xs] by simp
  ultimately show ?thesis by auto
qed

text \<open>For no condition and for a condition without \<open>OR\<close>, the rows selected are the eligible ones.\<close>

lemma claim_where_one_operand: "claim_where (one_operand c) r = eligible c r"
  by (cases c) (simp_all add: claim_where_def one_operand_def eligible_def)

lemma claim_none:
  assumes "\<forall>x \<in> set (t_rows tbl). \<not> claim_where cs x"
  shows "claim tbl cs host now = Inr (tbl, - 1)"
proof -
  have "filter (claim_where cs) (t_rows tbl) = []"
    using assms by (simp add: filter_empty_conv)
  then show ?thesis by (simp add: claim_def)
qed

lemma claim_first:
  assumes "\<exists>x \<in> set (t_rows tbl). claim_where cs x"
  shows "\<exists>r rs. sort_key claim_order (filter (claim_where cs) (t_rows tbl)) = r # rs"
proof -
  have "filter (claim_where cs) (t_rows tbl) \<noteq> []"
    using assms by (simp add: filter_empty_conv)
  then have "sort_key claim_order (filter (claim_where cs) (t_rows tbl)) \<noteq> []"
    by (metis length_sort length_0_conv)
  then show ?thesis
    by (cases "sort_key claim_order (filter (claim_where cs) (t_rows tbl))") auto
qed

lemma claim_some:
  assumes d: "distinct (map sq_id (t_rows tbl))" and ex: "\<exists>x \<in> set (t_rows tbl). claim_where cs x"
    and h: "has_claim_hostname tbl"
  shows "\<exists>r \<in> set (t_rows tbl). claim_where cs r
           \<and> (\<forall>x \<in> set (t_rows tbl). claim_where cs x \<longrightarrow> x = r \<or> ranks_before r x)
           \<and> claim tbl cs host now =
               Inr (tbl\<lparr>t_rows := map (\<lambda>x. if x = r then set_claimed host now x else x) (t_rows tbl)\<rparr>,
                    sq_id r)"
proof -
  let ?E = "filter (claim_where cs) (t_rows tbl)"
  from claim_first [OF ex] obtain r rs where s: "sort_key claim_order ?E = r # rs"
    by blast
  from sort_key_hd_min [OF s] have r: "r \<in> set (t_rows tbl)" "claim_where cs r"
    and least: "\<forall>x \<in> set ?E. claim_order r \<le> claim_order x"
    by auto
  have best: "\<forall>x \<in> set (t_rows tbl). claim_where cs x \<longrightarrow> x = r \<or> ranks_before r x"
  proof (intro ballI impI)
    fix x assume x: "x \<in> set (t_rows tbl)" "claim_where cs x"
    then have le: "claim_order r \<le> claim_order x" using least by simp
    show "x = r \<or> ranks_before r x"
    proof (cases "sq_id x = sq_id r")
      case True
      then show ?thesis using same_id_same_row [OF d x(1) r(1)] by simp
    next
      case False
      then show ?thesis using le by (auto simp: claim_order_def ranks_before_def)
    qed
  qed
  have "map (\<lambda>x. if sq_id x = sq_id r then set_claimed host now x else x) (t_rows tbl)
        = map (\<lambda>x. if x = r then set_claimed host now x else x) (t_rows tbl)"
    by (rule map_cong [OF refl]) (use same_id_same_row [OF d _ r(1)] in auto)
  then have "claim tbl cs host now =
               Inr (tbl\<lparr>t_rows := map (\<lambda>x. if x = r then set_claimed host now x else x) (t_rows tbl)\<rparr>,
                    sq_id r)"
    using s h by (simp add: claim_def)
  with r best show ?thesis by blast
qed


text \<open>What a \<open>claim\<close> does to the rows: one update, of the rows with the id selected, or none.\<close>

lemma claim_rows:
  assumes "claim tbl cs host now = Inr (tbl', i)"
  shows "\<exists>P. t_rows tbl' = map (\<lambda>x. if P x then set_claimed host now x else x) (t_rows tbl)"
proof (cases "sort_key claim_order (filter (claim_where cs) (t_rows tbl))")
  case Nil
  then have "t_rows tbl' = map (\<lambda>x. if False then set_claimed host now x else x) (t_rows tbl)"
    using assms by (simp add: claim_def)
  then show ?thesis by (rule exI [of _ "\<lambda>x. False"])
next
  case (Cons r rs)
  then have "t_rows tbl' = map (\<lambda>x. if sq_id x = sq_id r then set_claimed host now x else x) (t_rows tbl)"
    using assms by (auto simp: claim_def split: if_splits)
  then show ?thesis by (rule exI [of _ "\<lambda>x. sq_id x = sq_id r"])
qed

lemma claim_keeps_ids:
  assumes "claim tbl cs host now = Inr (tbl', i)"
  shows "map sq_id (t_rows tbl') = map sq_id (t_rows tbl)"
proof -
  from claim_rows [OF assms] obtain P where
    "t_rows tbl' = map (\<lambda>x. if P x then set_claimed host now x else x) (t_rows tbl)"
    by blast
  moreover have "map sq_id (map (\<lambda>x. if P x then set_claimed host now x else x) (t_rows tbl))
          = map sq_id (t_rows tbl)"
    by (rule ids_kept) (simp add: set_claimed_def)
  ultimately show ?thesis by simp
qed

lemma claim_keeps_distinct:
  "claim tbl cs host now = Inr (tbl', i) \<Longrightarrow> distinct (map sq_id (t_rows tbl)) \<Longrightarrow>
     distinct (map sq_id (t_rows tbl'))"
  by (simp only: claim_keeps_ids)

lemmas claim_eval = claim_def claim_where_def claim_order_def set_claimed_def
  has_claim_hostname_def get_columns_def created_columns_def sq_names STATUS_AVAILABLE_def
  STATUS_CLAIMED_def Let_def

text \<open>
  The order of service for no condition and for a condition without \<open>OR\<close>, on a table
  with distinct ids that has the \<open>sq_claim_hostname\<close> column, for a plain host name
  (\<open>plain\<close>, in the auxiliary definitions): with no eligible row \<open>claim\<close>
  returns -1 and leaves the table; otherwise it returns the id of the eligible row that
  ranks before every other, marks that row and no other as CLAIMED with the time and
  host of the call, and every row that is eligible afterwards was eligible before and
  ranks after it.
\<close>

lemma claim_without_or_best_first:
  assumes d: "distinct (map sq_id (t_rows tbl))" and h: "has_claim_hostname tbl"
    and "plain host"
  shows "((\<forall>x \<in> set (t_rows tbl). \<not> eligible c x) \<longrightarrow>
            claim tbl (one_operand c) host now = Inr (tbl, - 1))
    \<and> ((\<exists>x \<in> set (t_rows tbl). eligible c x) \<longrightarrow>
         (\<exists>r \<in> set (t_rows tbl). \<exists>tbl'. eligible c r
            \<and> (\<forall>x \<in> set (t_rows tbl). eligible c x \<longrightarrow> x = r \<or> ranks_before r x)
            \<and> claim tbl (one_operand c) host now = Inr (tbl', sq_id r)
            \<and> tbl' = tbl\<lparr>t_rows := map (\<lambda>x. if x = r
                 then x\<lparr>sq_status := STATUS_CLAIMED, sq_claim_time := Some now,
                        sq_claim_hostname := Some host\<rparr>
                 else x) (t_rows tbl)\<rparr>
            \<and> (\<forall>y \<in> set (t_rows tbl').
                  eligible c y \<longrightarrow> y \<in> set (t_rows tbl) \<and> ranks_before r y)))"
proof (intro conjI impI)
  assume "\<forall>x \<in> set (t_rows tbl). \<not> eligible c x"
  then show "claim tbl (one_operand c) host now = Inr (tbl, - 1)"
    by (intro claim_none) (simp add: claim_where_one_operand)
next
  assume "\<exists>x \<in> set (t_rows tbl). eligible c x"
  then have ex: "\<exists>x \<in> set (t_rows tbl). claim_where (one_operand c) x"
    by (simp add: claim_where_one_operand)
  define tbl' where "tbl' = (\<lambda>r. tbl\<lparr>t_rows := map (\<lambda>x. if x = r
                 then x\<lparr>sq_status := STATUS_CLAIMED, sq_claim_time := Some now,
                        sq_claim_hostname := Some host\<rparr>
                 else x) (t_rows tbl)\<rparr>)"
  from claim_some [OF d ex h, of host now] obtain r where
    r: "r \<in> set (t_rows tbl)" "eligible c r"
    and best: "\<forall>x \<in> set (t_rows tbl). eligible c x \<longrightarrow> x = r \<or> ranks_before r x"
    and res: "claim tbl (one_operand c) host now = Inr (tbl' r, sq_id r)"
    unfolding claim_where_one_operand tbl'_def set_claimed_def by blast
  have later: "\<forall>y \<in> set (t_rows (tbl' r)). eligible c y \<longrightarrow> y \<in> set (t_rows tbl) \<and> ranks_before r y"
  proof (intro ballI impI)
    fix y assume y: "y \<in> set (t_rows (tbl' r))" "eligible c y"
    from y(1) obtain x where x: "x \<in> set (t_rows tbl)"
      "y = (if x = r then x\<lparr>sq_status := STATUS_CLAIMED, sq_claim_time := Some now,
                        sq_claim_hostname := Some host\<rparr> else x)"
      unfolding tbl'_def by auto
    have "x \<noteq> r"
    proof
      assume "x = r"
      then have "sq_status y = STATUS_CLAIMED" using x(2) by simp
      then show False
        using y(2) by (simp add: eligible_def STATUS_CLAIMED_def STATUS_AVAILABLE_def)
    qed
    then have "y = x" using x(2) by simp
    then show "y \<in> set (t_rows tbl) \<and> ranks_before r y"
      using x(1) y(2) best \<open>x \<noteq> r\<close> by auto
  qed
  from r best res later show "\<exists>r \<in> set (t_rows tbl). \<exists>tbl'. eligible c r
            \<and> (\<forall>x \<in> set (t_rows tbl). eligible c x \<longrightarrow> x = r \<or> ranks_before r x)
            \<and> claim tbl (one_operand c) host now = Inr (tbl', sq_id r)
            \<and> tbl' = tbl\<lparr>t_rows := map (\<lambda>x. if x = r
                 then x\<lparr>sq_status := STATUS_CLAIMED, sq_claim_time := Some now,
                        sq_claim_hostname := Some host\<rparr>
                 else x) (t_rows tbl)\<rparr>
            \<and> (\<forall>y \<in> set (t_rows tbl').
                  eligible c y \<longrightarrow> y \<in> set (t_rows tbl) \<and> ranks_before r y)"
    unfolding tbl'_def by blast
qed

section \<open>Lemmas on the recovery scanner and on \<open>set_destroyed\<close>\<close>

lemma timedout_lease_expired: "timedout t_ip t_cl now r = lease_expired t_ip t_cl now r"
  by (auto simp: timedout_def lease_expired_def older_than_def hours_since_def field_simps
      split: option.splits)

text \<open>A timeout of at most six decimals is written into the statement as it is.\<close>

lemma round_half_even_of_int: "round_half_even (of_int k) = k"
  by (simp add: round_half_even_def)

lemma format_f_six_decimals: "format_f (of_int k / 1000000) = of_int k / 1000000"
  by (simp add: format_f_def round_half_even_of_int)


text \<open>
  On a table with distinct ids the scanner destroys the rows whose lease has expired by
  the timeouts as the statement carries them, and returns them.
\<close>

lemma cleanup_eq:
  assumes "distinct (map sq_id (t_rows tbl))"
  shows "cleanup_long_running_rows tbl t_ip t_cl now =
           (tbl\<lparr>t_rows := map (\<lambda>x. if lease_expired (format_f t_ip) (format_f t_cl) now x
                                     then x\<lparr>sq_status := STATUS_DESTROYED\<rparr> else x) (t_rows tbl)\<rparr>,
            filter (lease_expired (format_f t_ip) (format_f t_cl) now) (t_rows tbl))"
proof -
  let ?P = "timedout (format_f t_ip) (format_f t_cl) now"
  have P: "?P = lease_expired (format_f t_ip) (format_f t_cl) now"
    by (rule ext) (rule timedout_lease_expired)
  show ?thesis
  proof (cases "filter ?P (t_rows tbl) = []")
    case True
    then have "\<forall>x \<in> set (t_rows tbl). \<not> ?P x"
      by (simp add: filter_empty_conv)
    then have "map (\<lambda>x. if ?P x then x\<lparr>sq_status := STATUS_DESTROYED\<rparr> else x) (t_rows tbl) = t_rows tbl"
      by (simp add: map_idI)
    then show ?thesis
      using True by (simp add: cleanup_long_running_rows_def P)
  next
    case False
    have "map (\<lambda>x. if sq_id x \<in> set (remdups (map sq_id (filter ?P (t_rows tbl))))
                     then set_status_destroyed x else x) (t_rows tbl)
          = map (\<lambda>x. if ?P x then x\<lparr>sq_status := STATUS_DESTROYED\<rparr> else x) (t_rows tbl)"
    proof (rule map_cong [OF refl])
      fix x assume "x \<in> set (t_rows tbl)"
      then have "sq_id x \<in> set (remdups (map sq_id (filter ?P (t_rows tbl)))) \<longleftrightarrow> ?P x"
        by (rule id_selected_iff [OF assms])
      then show "(if sq_id x \<in> set (remdups (map sq_id (filter ?P (t_rows tbl))))
                  then set_status_destroyed x else x)
               = (if ?P x then x\<lparr>sq_status := STATUS_DESTROYED\<rparr> else x)"
        by (simp only: set_status_destroyed_def)
    qed
    then show ?thesis
      using False by (simp add: cleanup_long_running_rows_def Let_def P)
  qed
qed

text \<open>
  The literals that the store reads from the joined text are the statuses, but for the
  empty list, where it reads one literal, the empty string.
\<close>

lemma literals_quote_free:
  "quote_free s \<Longrightarrow> literals acc (s @ rest) = literals (acc @ s) rest"
  by (induction s arbitrary: acc) (auto simp: quote_free_def)

lemma literals_separator:
  "literals acc ([CHR 0x27, CHR '','', CHR '' '', CHR 0x27] @ rest) = acc # literals [] rest"
  by simp

lemma literals_join:
  "list_all quote_free (x # xs) \<Longrightarrow>
     literals acc (join [CHR 0x27, CHR '','', CHR '' '', CHR 0x27] (x # xs)) = (acc @ x) # xs"
proof (induction xs arbitrary: acc x)
  case Nil
  then show ?case
    using literals_quote_free [of x acc "[]"] by simp
next
  case (Cons y ys)
  have "literals acc (x @ [CHR 0x27, CHR '','', CHR '' '', CHR 0x27]
            @ join [CHR 0x27, CHR '','', CHR '' '', CHR 0x27] (y # ys))
        = literals (acc @ x) ([CHR 0x27, CHR '','', CHR '' '', CHR 0x27]
            @ join [CHR 0x27, CHR '','', CHR '' '', CHR 0x27] (y # ys))"
    using Cons.prems by (intro literals_quote_free) simp
  also have "\<dots> = (acc @ x) # literals [] (join [CHR 0x27, CHR '','', CHR '' '', CHR 0x27] (y # ys))"
    by (rule literals_separator)
  also have "\<dots> = (acc @ x) # y # ys"
    using Cons.IH [of y "[]"] Cons.prems by simp
  finally show ?case by simp
qed

lemma in_literals_eq:
  assumes "list_all quote_free status_list"
  shows "in_literals status_list = (if status_list = [] then [[]] else status_list)"
proof (cases status_list)
  case Nil
  then show ?thesis by (simp add: in_literals_def)
next
  case (Cons x xs)
  with assms have "list_all quote_free (x # xs)" by simp
  from literals_join [OF this, of "[]"] show ?thesis
    using Cons by (simp add: in_literals_def del: join.simps literals.simps)
qed

text \<open>
  For a list of statuses that is not empty, \<open>set_destroyed\<close> destroys the rows whose
  status is in the list, and no other, and returns their ids.
\<close>

lemma set_destroyed_listed:
  assumes "status_list \<noteq> []" and "list_all quote_free status_list"
  shows "set_destroyed tbl status_list =
           Inr (tbl\<lparr>t_rows := map (\<lambda>x. if sq_status x \<in> set status_list
                                         then x\<lparr>sq_status := STATUS_DESTROYED\<rparr> else x) (t_rows tbl)\<rparr>,
                map sq_id (filter (\<lambda>r. sq_status r \<in> set status_list) (t_rows tbl)))"
  using assms by (simp add: set_destroyed_def in_literals_eq Let_def set_status_destroyed_def)

section \<open>Lemmas on the stamps\<close>














text \<open>
  What the theorems take of a table is kept by every operation: that the ids are distinct
  and the columns that the table has.
\<close>

lemma step_distinct:
  assumes d: "distinct (map sq_id (t_rows tbl))" and s: "step tbl op host now = Inr tbl'"
  shows "distinct (map sq_id (t_rows tbl'))"
proof (cases op)
  case (Put df priority_included priority)
  then have "put tbl df priority_included priority host now = Inr tbl'" using s by simp
  then obtain cs rs where "insert_rows cs now tbl rs = Inr tbl'"
    by (auto simp: put_unfold Let_def)
  from insert_rows_distinct [OF this d] show ?thesis .
next
  case (Claim c)
  then obtain i where "claim tbl c host now = Inr (tbl', i)"
    using s by (auto split: sum.splits)
  from claim_keeps_distinct [OF this d] show ?thesis .
next
  case (Get i)
  have "map sq_id (map (\<lambda>x. if sq_id x = i then set_in_progress host now x else x) (t_rows tbl))
          = map sq_id (t_rows tbl)"
    by (rule ids_kept) (simp add: set_in_progress_def)
  then show ?thesis using s Get d by (auto simp: get_def Let_def simp del: map_map)
next
  case (Finish i st)
  have "map sq_id (map (\<lambda>x. if sq_id x = i then set_finished st now x else x) (t_rows tbl))
          = map sq_id (t_rows tbl)"
    by (rule ids_kept) (simp add: set_finished_def)
  then show ?thesis using s Finish d by (auto simp: finish_def simp del: map_map split: if_splits)
next
  case (Cleanup a b)
  have "map sq_id (map (\<lambda>x. if P x then set_status_destroyed x else x) (t_rows tbl))
          = map sq_id (t_rows tbl)" for P
    by (rule ids_kept) (simp add: set_status_destroyed_def)
  then show ?thesis
    using s Cleanup d
    by (auto simp: cleanup_long_running_rows_def Let_def simp del: map_map set_remdups split: if_splits)
next
  case (SetDestroyed sl)
  have "map sq_id (map (\<lambda>x. if P x then set_status_destroyed x else x) (t_rows tbl))
          = map sq_id (t_rows tbl)" for P
    by (rule ids_kept) (simp add: set_status_destroyed_def)
  then show ?thesis
    using s SetDestroyed d
    by (auto simp: set_destroyed_def Let_def simp del: map_map split: if_splits)
qed

lemma step_keeps_columns:
  assumes s: "step tbl op host now = Inr tbl'"
  shows "payload_columns tbl' = payload_columns tbl"
proof (cases op)
  case (Put df priority_included priority)
  then have "put tbl df priority_included priority host now = Inr tbl'" using s by simp
  then obtain cs rs where "insert_rows cs now tbl rs = Inr tbl'"
    by (auto simp: put_unfold Let_def)
  from insert_rows_payload_columns [OF this] show ?thesis .
next
  case (Claim c)
  then show ?thesis
    using s by (auto simp: claim_def Let_def split: sum.splits list.splits if_splits)
next
  case (Get i)
  then show ?thesis using s by (auto simp: get_def Let_def)
next
  case (Finish i st)
  then show ?thesis using s by (auto simp: finish_def split: if_splits)
next
  case (Cleanup a b)
  then show ?thesis
    using s by (auto simp: cleanup_long_running_rows_def Let_def split: if_splits)
next
  case (SetDestroyed sl)
  then show ?thesis
    using s by (auto simp: set_destroyed_def Let_def split: if_splits)
qed

lemma step_keeps_claim_hostname:
  "step tbl op host now = Inr tbl' \<Longrightarrow> has_claim_hostname tbl' = has_claim_hostname tbl"
  by (simp add: has_claim_hostname_def get_columns_def step_keeps_columns)

section \<open>The claims\<close>

text \<open>
  C1. The claim: \<open>claim\<close> returns the id of an AVAILABLE row, the best among those that
  satisfy the condition, and marks that row CLAIMED. The condition text is pasted without
  brackets, so \<open>claim("job = 'a' or job = 'b'")\<close> selects with
  \<open>sq_status = 'AVAILABLE' and job = 'a' or job = 'b'\<close>. Two jobs are put, \<open>a\<close> with
  priority 5 and \<open>b\<close> with priority 9, and \<open>claim()\<close> by \<open>host-x\<close> takes row 2, the job
  \<open>b\<close>. The claim with the condition, by \<open>host-y\<close>, then returns 2 again, the id of a
  row that is CLAIMED, and stamps the row for \<open>host-y\<close>; row 1, AVAILABLE and satisfying
  the condition, is left.
\<close>

theorem claim_with_or_takes_claimed_row:
  "\<not> isl (put work_queue df_jobs True 1 ''host-a'' 0)
   \<and> map sq_id (t_rows queue_jobs) = [1, 2]
   \<and> map sq_status (t_rows queue_jobs) = [''AVAILABLE'', ''AVAILABLE'']
   \<and> \<not> isl (claim queue_jobs [] ''host-x'' 5)
   \<and> snd (projr (claim queue_jobs [] ''host-x'' 5)) = 2
   \<and> map sq_status (t_rows queue_jobs_claimed) = [''AVAILABLE'', ''CLAIMED'']
   \<and> map sq_claim_hostname (t_rows queue_jobs_claimed) = [None, Some ''host-x'']
   \<and> \<not> isl (claim queue_jobs_claimed a_or_b ''host-y'' 9)
   \<and> snd (projr (claim queue_jobs_claimed a_or_b ''host-y'' 9)) = 2
   \<and> map sq_status (t_rows (fst (projr (claim queue_jobs_claimed a_or_b ''host-y'' 9))))
       = [''AVAILABLE'', ''CLAIMED'']
   \<and> map sq_claim_time (t_rows (fst (projr (claim queue_jobs_claimed a_or_b ''host-y'' 9))))
       = [None, Some 9]
   \<and> map sq_claim_hostname (t_rows (fst (projr (claim queue_jobs_claimed a_or_b ''host-y'' 9))))
       = [None, Some ''host-y'']"
  by (simp add: queue_jobs_claimed_def queue_jobs_def a_or_b_def job_is_def put_eval claim_eval
      work_queue_def df_jobs_def blank_row_def)

text \<open>
  C2. The claim: the scanner destroys exactly the rows whose lease is older than the
  caller's timeouts. The statement carries each timeout with six decimals, so a claimed
  timeout of \<open>2 ** -23\<close> hours (0.43 milliseconds) is sent as \<open>0.000000\<close>: row 4, claimed
  0.1 milliseconds before, is destroyed and returned although its lease has not expired.
\<close>

theorem cleanup_rounds_timeout:
  "map sq_status (t_rows (fst (cleanup_long_running_rows queue_leases 8 (1 / 8388608) 7000000100)))
     = [''DESTROYED'', ''IN_PROGRESS'', ''AVAILABLE'', ''DESTROYED'']
   \<and> map sq_id (snd (cleanup_long_running_rows queue_leases 8 (1 / 8388608) 7000000100)) = [1, 4]
   \<and> sq_id (t_rows queue_leases ! 3) = 4
   \<and> sq_status (t_rows queue_leases ! 3) = ''CLAIMED''
   \<and> sq_claim_time (t_rows queue_leases ! 3) = Some 7000000000
   \<and> \<not> lease_expired 8 (1 / 8388608) 7000000100 (t_rows queue_leases ! 3)"
proof -
  have fl: "\<lfloor>15625 / 131072 :: rat\<rfloor> = 0"
    by (simp add: floor_eq_iff)
  have f: "format_f 8 = 8" "format_f (1 / 8388608) = 0"
    by (simp_all add: format_f_def round_half_even_def fl)
  have d: "distinct (map sq_id (t_rows queue_leases))"
    by (simp add: queue_leases_def blank_row_def)
  show ?thesis
    unfolding cleanup_eq [OF d] f
    by (simp add: queue_leases_def blank_row_def lease_expired_def older_than_def
        STATUS_CLAIMED_def STATUS_PROGRESS_def STATUS_DESTROYED_def)
qed

text \<open>
  C2, as amended. On a table whose ids are distinct, \<open>cleanup_long_running_rows\<close> sets the
  status of exactly the rows to DESTROYED whose lease has expired by the two timeouts as
  the statement carries them, each rounded to six decimals (\<open>format_f\<close>); it changes
  nothing else in the table and returns exactly those rows, as they were when selected.
  A timeout of at most six decimals is carried as it is.
\<close>

theorem cleanup_destroys_expired:
  assumes "distinct (map sq_id (t_rows tbl))"
  shows "cleanup_long_running_rows tbl t_ip t_cl now =
           (tbl\<lparr>t_rows := map (\<lambda>x. if lease_expired (format_f t_ip) (format_f t_cl) now x
                                     then x\<lparr>sq_status := STATUS_DESTROYED\<rparr> else x) (t_rows tbl)\<rparr>,
            filter (lease_expired (format_f t_ip) (format_f t_cl) now) (t_rows tbl))
     \<and> format_f (of_int k / 1000000) = of_int k / 1000000"
  using cleanup_eq [OF assms] format_f_six_decimals by blast

theorem cleanup_destroys_expired_witness:
  "distinct (map sq_id (t_rows queue_leases))
   \<and> format_f 8 = 8 \<and> format_f 1 = 1
   \<and> map sq_status (t_rows (fst (cleanup_long_running_rows queue_leases 8 1 7200000000)))
       = [''DESTROYED'', ''IN_PROGRESS'', ''AVAILABLE'', ''CLAIMED'']
   \<and> map sq_id (snd (cleanup_long_running_rows queue_leases 8 1 7200000000)) = [1]"
proof -
  have d: "distinct (map sq_id (t_rows queue_leases))"
    by (simp add: queue_leases_def blank_row_def)
  have f: "format_f 8 = 8" "format_f 1 = 1"
    using cleanup_destroys_expired [OF d, of 8 1 7200000000 8000000]
      cleanup_destroys_expired [OF d, of 8 1 7200000000 1000000]
    by simp_all
  have "map sq_status (t_rows (fst (cleanup_long_running_rows queue_leases 8 1 7200000000)))
       = [''DESTROYED'', ''IN_PROGRESS'', ''AVAILABLE'', ''CLAIMED'']
     \<and> map sq_id (snd (cleanup_long_running_rows queue_leases 8 1 7200000000)) = [1]"
    unfolding cleanup_destroys_expired [OF d, of 8 1 7200000000 0, THEN conjunct1] f
    by (simp add: queue_leases_def blank_row_def lease_expired_def older_than_def
        STATUS_CLAIMED_def STATUS_PROGRESS_def STATUS_DESTROYED_def)
  with d f show ?thesis by (intro conjI) simp_all
qed

text \<open>
  C3. The claim: \<open>set_destroyed\<close> destroys exactly the rows whose status is in the list and
  returns their ids. For a list that is not empty this is what the code does
  (\<open>set_destroyed_listed\<close>). For the empty list the joined text is empty and both
  statements test \<open>sq_status in ('')\<close>: after \<open>finish(2, '')\<close> has given row 2 the empty
  status, \<open>set_destroyed([])\<close> sets row 2 to DESTROYED and returns \<open>[2]\<close>.
\<close>

theorem set_destroyed_empty_list:
  "\<not> isl (finish queue_three 2 [] 60)
   \<and> map sq_status (t_rows queue_blank_status) = [''AVAILABLE'', [], ''AVAILABLE'']
   \<and> \<not> isl (set_destroyed queue_blank_status [])
   \<and> snd (projr (set_destroyed queue_blank_status [])) = [2]
   \<and> map sq_status (t_rows (fst (projr (set_destroyed queue_blank_status []))))
       = [''AVAILABLE'', ''DESTROYED'', ''AVAILABLE'']"
  by (simp add: queue_blank_status_def finish_def set_destroyed_def in_literals_def quote_free_def
      set_finished_def set_status_destroyed_def queue_three_def blank_row_def STATUS_DESTROYED_def
      Let_def)




text \<open>
  C5. The claim: every row that \<open>put\<close> inserts has its priority in the range 1 to 10, also
  when the priority comes from the frame's own \<open>sq_priority\<close> column. The code clamps
  the argument only (\<open>put_argument_priority_clamped\<close>). At a frame with a priority column
  holding 99 and -5, put with \<open>priority_included=True\<close> into an empty queue, the two rows
  are inserted with the priorities 99 and -5.
\<close>

theorem put_keeps_column_priority:
  "\<not> isl (put empty_queue df_unclamped True 1 ''host-a'' 0)
   \<and> map sq_priority (t_rows (projr (put empty_queue df_unclamped True 1 ''host-a'' 0))) = [99, - 5]"
  by (simp add: put_eval empty_queue_def df_unclamped_def blank_row_def)







text \<open>
  C8. \<open>get_status\<close> returns the status of the row with the id (ids being distinct), and
  DOESNOTEXIST when the table has no row with the id; after \<open>finish\<close> with COMPLETED on the
  id of a row, it returns COMPLETED.
\<close>

theorem get_status_lookup:
  "(distinct (map sq_id (t_rows tbl)) \<and> r \<in> set (t_rows tbl) \<longrightarrow> get_status tbl (sq_id r) = sq_status r)
   \<and> (row_id \<notin> sq_id ` set (t_rows tbl) \<longrightarrow> get_status tbl row_id = STATUS_NOEXIST)
   \<and> (row_id \<in> sq_id ` set (t_rows tbl) \<longrightarrow>
        (\<exists>tbl'. finish tbl row_id STATUS_COMPLETED now = Inr tbl'
                \<and> get_status tbl' row_id = STATUS_COMPLETED))"
proof (intro conjI impI)
  assume "distinct (map sq_id (t_rows tbl)) \<and> r \<in> set (t_rows tbl)"
  then have "filter (\<lambda>x. sq_id x = sq_id r) (t_rows tbl) = [r]"
    by (simp add: filter_distinct_key)
  then show "get_status tbl (sq_id r) = sq_status r"
    by (simp add: get_status_def)
next
  assume "row_id \<notin> sq_id ` set (t_rows tbl)"
  then have "filter (\<lambda>x. sq_id x = row_id) (t_rows tbl) = []"
    by (auto simp: filter_empty_conv)
  then show "get_status tbl row_id = STATUS_NOEXIST"
    by (simp add: get_status_def)
next
  assume "row_id \<in> sq_id ` set (t_rows tbl)"
  then obtain a as where sel: "filter (\<lambda>x. sq_id x = row_id) (t_rows tbl) = a # as"
    by (cases "filter (\<lambda>x. sq_id x = row_id) (t_rows tbl)") (auto simp: filter_empty_conv)
  define tbl' where "tbl' = tbl\<lparr>t_rows := map (\<lambda>x. if sq_id x = row_id
        then set_finished STATUS_COMPLETED now x else x) (t_rows tbl)\<rparr>"
  have fin: "finish tbl row_id STATUS_COMPLETED now = Inr tbl'"
    by (simp add: finish_def tbl'_def quote_free_def STATUS_COMPLETED_def)
  have "filter (\<lambda>x. sq_id x = row_id) (t_rows tbl')
          = map (set_finished STATUS_COMPLETED now) (a # as)"
    unfolding tbl'_def using sel by (simp add: filter_id_update set_finished_def)
  then have "get_status tbl' row_id = STATUS_COMPLETED"
    by (simp add: get_status_def set_finished_def)
  with fin show "\<exists>tbl'. finish tbl row_id STATUS_COMPLETED now = Inr tbl'
                \<and> get_status tbl' row_id = STATUS_COMPLETED"
    by blast
qed

theorem get_status_lookup_witness:
  "get_status queue_three 2 = ''AVAILABLE'' \<and> get_status queue_three 7 = ''DOESNOTEXIST''
   \<and> (\<exists>tbl'. finish queue_three 2 ''COMPLETED'' 60 = Inr tbl' \<and> get_status tbl' 2 = ''COMPLETED'')"
proof -
  let ?r = "t_rows queue_three ! 1"
  have d: "distinct (map sq_id (t_rows queue_three)) \<and> ?r \<in> set (t_rows queue_three)"
    by (simp add: queue_three_def blank_row_def)
  have n: "7 \<notin> sq_id ` set (t_rows queue_three)"
    by (simp add: queue_three_def blank_row_def)
  have i: "2 \<in> sq_id ` set (t_rows queue_three)"
    by (simp add: queue_three_def blank_row_def)
  from get_status_lookup [of queue_three ?r 7 60] d n
  have "get_status queue_three (sq_id ?r) = sq_status ?r" "get_status queue_three 7 = STATUS_NOEXIST"
    by blast+
  moreover from get_status_lookup [of queue_three ?r 2 60] i
  have "\<exists>tbl'. finish queue_three 2 STATUS_COMPLETED 60 = Inr tbl' \<and> get_status tbl' 2 = STATUS_COMPLETED"
    by blast
  ultimately show ?thesis
    by (simp add: queue_three_def blank_row_def STATUS_NOEXIST_def STATUS_COMPLETED_def)
qed




text \<open>
  C10. Every row that a successful \<open>put\<close> inserts has the status AVAILABLE and the calling
  host as \<open>sq_put_hostname\<close>, whatever columns the caller's frame carries: the rows of the
  table after the \<open>put\<close> are the rows before it followed by one new row for each row of the
  frame, each with that status and that host.
\<close>

theorem put_stamps_status_and_host:
  assumes "put tbl df priority_included priority host now = Inr tbl'"
  shows "\<exists>new. t_rows tbl' = t_rows tbl @ new \<and> length new = length (df_rows df)
           \<and> (\<forall>r \<in> set new. sq_status r = STATUS_AVAILABLE \<and> sq_put_hostname r = Some host)"
proof -
  define df1 where "df1 = (if SQ_PRIORITY \<in> set (df_columns df) \<and> priority_included then df
                 else set_sq_priority (put_priority priority) df)"
  define cs where "cs = filter (\<lambda>c. c \<in> set (get_columns tbl))
              (add_column SQ_PUT_HOSTNAME (add_column SQ_STATUS (df_columns df1)))"
  define rs where "rs = map (\<lambda>r. r\<lparr>sq_status := STATUS_AVAILABLE, sq_put_hostname := Some host\<rparr>) (df_rows df1)"
  have ins: "insert_rows cs now tbl rs = Inr tbl'"
    using assms by (simp add: put_unfold Let_def df1_def cs_def rs_def)
  have col: "SQ_PUT_HOSTNAME \<in> set cs"
    unfolding cs_def by (rule put_hostname_column)
  have len: "length rs = length (df_rows df)"
    by (simp add: rs_def df1_def set_sq_priority_def)
  from insert_rows_appends [OF ins] obtain new where
    new: "t_rows tbl' = t_rows tbl @ new" "list_all2 (\<lambda>r n. \<exists>s. n = insert_row cs now s r) rs new"
    by blast
  have "\<forall>n \<in> set new. sq_status n = STATUS_AVAILABLE \<and> sq_put_hostname n = Some host"
  proof
    fix n assume "n \<in> set new"
    with list_all2_in_right [OF new(2)] obtain r s where "r \<in> set rs" "n = insert_row cs now s r"
      by blast
    then show "sq_status n = STATUS_AVAILABLE \<and> sq_put_hostname n = Some host"
      using col by (auto simp: rs_def insert_row_def)
  qed
  moreover have "length new = length (df_rows df)"
    using new(2) len by (simp add: list_all2_lengthD [symmetric])
  ultimately show ?thesis using new(1) by blast
qed

text \<open>
  At a frame whose one row says COMPLETED and names another host, the inserted row is
  AVAILABLE and names the calling host.
\<close>

theorem put_stamps_status_and_host_witness:
  "\<exists>tbl'. put empty_queue df_forged True 1 ''host-a'' 0 = Inr tbl'
      \<and> map sq_status (t_rows tbl') = [''AVAILABLE'']
      \<and> map sq_put_hostname (t_rows tbl') = [Some ''host-a'']"
proof -
  obtain tbl' where p: "put empty_queue df_forged True 1 ''host-a'' 0 = Inr tbl'"
    by (simp add: put_eval empty_queue_def df_forged_def blank_row_def)
  from put_stamps_status_and_host [OF p] obtain new where
    new: "t_rows tbl' = t_rows empty_queue @ new" "length new = length (df_rows df_forged)"
      "\<forall>r \<in> set new. sq_status r = STATUS_AVAILABLE \<and> sq_put_hostname r = Some ''host-a''"
    by blast
  from new(2) obtain r where r: "new = [r]"
    by (auto simp: df_forged_def length_Suc_conv)
  have "map sq_status (t_rows tbl') = [''AVAILABLE'']"
    and "map sq_put_hostname (t_rows tbl') = [Some ''host-a'']"
    using new(1,3) r by (simp_all add: empty_queue_def STATUS_AVAILABLE_def)
  with p show ?thesis by (intro exI [of _ tbl'] conjI)
qed

end
